theory Spec2Isabelle
  imports Main
begin

section \<open>The selection service of the diagram client\<close>

text \<open>
  This theory embeds \<^verbatim>\<open>src/features/select/selection-service.ts\<close>: the class
  \<^verbatim>\<open>SelectionService\<close>, which keeps the identifiers of the selected diagram
  elements, re-validates them against each model root it is given, and tells a feedback
  dispatcher and the registered listeners about changes.

  The object is mutated in place, so every method is a function from the object's state
  to an outcome: the state the object is left in, the calls it made to its collaborators
  (in order), and the exception that escaped, if any.
\<close>

subsection \<open>JavaScript sets\<close>

text \<open>
  A JavaScript \<^verbatim>\<open>Set\<close> holds each value once and iterates in insertion order.
  It is a list without duplicates: \<^verbatim>\<open>add\<close> appends a value that is not yet a
  member, \<^verbatim>\<open>delete\<close> takes the value out, \<^verbatim>\<open>[...s]\<close> and
  \<^verbatim>\<open>Array.from(s)\<close> read the list.
\<close>

typedef 'a JSSet = "{xs :: 'a list. distinct xs}"
  morphisms Set_values Abs_JSSet
proof
  show "[] \<in> {xs :: 'a list. distinct xs}" by simp
qed

setup_lifting type_definition_JSSet

lift_definition Set_empty :: "'a JSSet" is "[]"
  by simp

lift_definition Set_has :: "'a JSSet \<Rightarrow> 'a \<Rightarrow> bool" is "\<lambda>xs x. x \<in> set xs" .

lift_definition Set_add :: "'a \<Rightarrow> 'a JSSet \<Rightarrow> 'a JSSet"
  is "\<lambda>x xs. if x \<in> set xs then xs else xs @ [x]"
  by simp

lift_definition Set_delete :: "'a \<Rightarrow> 'a JSSet \<Rightarrow> 'a JSSet" is "\<lambda>x xs. removeAll x xs"
  by (simp add: distinct_removeAll)

lift_definition Set_size :: "'a JSSet \<Rightarrow> nat" is length .

text \<open>\<^verbatim>\<open>new Set(iterable)\<close> adds the values of the iterable one after the other.\<close>

definition new_Set :: "'a list \<Rightarrow> 'a JSSet" where
  "new_Set xs = fold Set_add xs Set_empty"

subsection \<open>Arrays\<close>

text \<open>\<^verbatim>\<open>Array.prototype.indexOf\<close>: the first position of the value, or \<open>-1\<close>.\<close>

fun indexOf :: "'a list \<Rightarrow> 'a \<Rightarrow> int" where
  "indexOf [] v = -1"
| "indexOf (x # xs) v =
     (if x = v then 0 else (let i = indexOf xs v in if i = -1 then -1 else i + 1))"

text \<open>
  Modelled from the spec: \<^verbatim>\<open>distinctAdd\<close> of \<^verbatim>\<open>utils/array-utils\<close>, which the
  service imports and whose source is not part of the fragment. The specification says:
  "add to the listener set only if not already present (idempotent; listener identity
  equality)"; listeners are notified "in registration order", so a new one goes to the end.
\<close>

definition distinctAdd :: "'a list \<Rightarrow> 'a \<Rightarrow> 'a list" where
  "distinctAdd array v = (if v \<in> set array then array else array @ [v])"

text \<open>
  Modelled from the spec: \<^verbatim>\<open>remove\<close> of \<^verbatim>\<open>utils/array-utils\<close>, absent in the same
  way. The specification says: "remove if present; no-op otherwise".
\<close>

definition remove :: "'a list \<Rightarrow> 'a \<Rightarrow> 'a list" where
  "remove array v = (if v \<in> set array then remove1 v array else array)"

subsection \<open>The collaborators\<close>

text \<open>
  Modelled from the spec: the model root, its index and the selection flag of an element,
  which belong to the diagram framework the service imports. The specification says that
  a root exposes "an index capable of resolving an element identifier to an element (or
  indicating absence) and enumerating all elements", and that the selection flag is
  "determined by the external model".

  The service compares roots by reference (\<^verbatim>\<open>prevRoot !== root\<close>) and reads their
  index, so a root is an address and a store gives the object at each address;
  \<open>None\<close> is \<^verbatim>\<open>undefined\<close>. The service never writes to the store.
\<close>

type_synonym addr = nat

record SModelElement =
  elem_id :: string
  selected :: bool

record SModelRoot =
  index :: "SModelElement list"

type_synonym store = "addr \<Rightarrow> SModelRoot"

definition getById :: "SModelElement list \<Rightarrow> string \<Rightarrow> SModelElement option" where
  "getById idx i = find (\<lambda>e. elem_id e = i) idx"

definition all_elements :: "SModelElement list \<Rightarrow> SModelElement list" where
  "all_elements idx = idx"

definition isSelected :: "SModelElement \<Rightarrow> bool" where
  "isSelected e = selected e"

text \<open>
  An identifier resolves in a root when the root is there and its index has an element for
  the identifier: the test \<^verbatim>\<open>prevRoot !== undefined && prevRoot.index.getById(id)\<close>
  of line 79.
\<close>

definition resolvable :: "store \<Rightarrow> addr option \<Rightarrow> string \<Rightarrow> bool" where
  "resolvable h rt i = (case rt of None \<Rightarrow> False | Some a \<Rightarrow> getById (index (h a)) i \<noteq> None)"

text \<open>
  A listener is an object compared by reference: a token. The calls the service makes are
  recorded as events: \<^verbatim>\<open>feedbackDispatcher.registerFeedback(this, actions)\<close> and
  \<^verbatim>\<open>listener.selectionChanged(root, ids)\<close>. Both collaborators are taken to return
  normally and not to call back into the service.
\<close>

type_synonym SelectionListener = nat

datatype Action = SelectFeedbackAction "string list" "string list"

datatype Event =
    RegisterFeedback "Action list"
  | SelectionChanged SelectionListener "addr option" "string list"

datatype exn = TypeError

subsection \<open>The service\<close>

record State =
  root :: "addr option"
  selectedElementIDs :: "string JSSet"
  selectionListeners :: "SelectionListener list"

record Outcome =
  state :: State
  events :: "Event list"
  thrown :: "exn option"

text \<open>The constructor: no root yet, nothing selected, the injected listeners.\<close>

definition initial :: "SelectionListener list \<Rightarrow> State" where
  "initial ls = \<lparr>root = None, selectedElementIDs = Set_empty, selectionListeners = ls\<rparr>"

definition register :: "State \<Rightarrow> SelectionListener \<Rightarrow> State" where
  "register s l = s\<lparr>selectionListeners := distinctAdd (selectionListeners s) l\<rparr>"

definition deregister :: "State \<Rightarrow> SelectionListener \<Rightarrow> State" where
  "deregister s l = s\<lparr>selectionListeners := remove (selectionListeners s) l\<rparr>"

text \<open>Lines 64 and 65: the two filters, both computed before the set is touched.\<close>

definition toSelect :: "string list \<Rightarrow> string list \<Rightarrow> string list" where
  "toSelect select deselect = filter (\<lambda>selectId. indexOf deselect selectId = -1) select"

definition toDeselect :: "State \<Rightarrow> string list \<Rightarrow> string list \<Rightarrow> string list" where
  "toDeselect s select deselect =
     filter (\<lambda>deselectId. indexOf select deselectId = -1
                \<and> Set_has (selectedElementIDs s) deselectId) deselect"

text \<open>Lines 66 to 71: the deletions, then the additions.\<close>

definition applied :: "State \<Rightarrow> string list \<Rightarrow> string list \<Rightarrow> string JSSet" where
  "applied s select deselect =
     fold Set_add (toSelect select deselect)
       (fold Set_delete (toDeselect s select deselect) (selectedElementIDs s))"

text \<open>
  Lines 75 to 83: the loop over the set. Deleting the value just visited does not disturb
  the iteration of a JavaScript set, so the loop visits the values the set held when it
  started, in order. With \<^verbatim>\<open>root\<close> undefined, \<^verbatim>\<open>root.index\<close> throws a
  \<^verbatim>\<open>TypeError\<close> in the first round. The result is the exception, if any, the set
  and the collected \<^verbatim>\<open>deselectedElementIDs\<close>.
\<close>

fun validate :: "store \<Rightarrow> addr option \<Rightarrow> addr option \<Rightarrow> string list
    \<Rightarrow> string JSSet \<Rightarrow> string JSSet \<Rightarrow> exn option \<times> string JSSet \<times> string JSSet" where
  "validate h prevRoot rt [] sel desel = (None, sel, desel)"
| "validate h prevRoot rt (i # ids) sel desel =
     (case rt of
        None \<Rightarrow> (Some TypeError, sel, desel)
      | Some a \<Rightarrow>
          (case getById (index (h a)) i of
             Some element \<Rightarrow> validate h prevRoot rt ids sel desel
           | None \<Rightarrow>
               validate h prevRoot rt ids (Set_delete i sel)
                 (if resolvable h prevRoot i then Set_add i desel else desel)))"

text \<open>Lines 64 to 83 together, from the state the call found.\<close>

definition validated :: "store \<Rightarrow> State \<Rightarrow> addr option \<Rightarrow> string list \<Rightarrow> string list
    \<Rightarrow> exn option \<times> string JSSet \<times> string JSSet" where
  "validated h s rt select deselect =
     validate h (root s) rt (Set_values (applied s select deselect))
       (applied s select deselect) (new_Set (toDeselect s select deselect))"

text \<open>The set \<^verbatim>\<open>deselectedElementIDs\<close> as line 89 would read it.\<close>

definition deselectedElementIDs ::
    "store \<Rightarrow> State \<Rightarrow> addr option \<Rightarrow> string list \<Rightarrow> string list \<Rightarrow> string JSSet" where
  "deselectedElementIDs h s rt select deselect = snd (snd (validated h s rt select deselect))"

text \<open>Line 86.\<close>

definition selectionChanged :: "string JSSet \<Rightarrow> string JSSet \<Rightarrow> bool" where
  "selectionChanged prevSelectedElementIDs cur =
     (Set_size prevSelectedElementIDs \<noteq> Set_size cur
      \<or> \<not> list_all (\<lambda>v. Set_has cur v) (Set_values prevSelectedElementIDs))"

text \<open>Line 104.\<close>

definition notifyListeners :: "State \<Rightarrow> addr option \<Rightarrow> string JSSet \<Rightarrow> Event list" where
  "notifyListeners s rt ids =
     map (\<lambda>listener. SelectionChanged listener rt (Set_values ids)) (selectionListeners s)"

definition dispatchFeedback :: "Action list \<Rightarrow> Event list" where
  "dispatchFeedback actions = [RegisterFeedback actions]"

definition updateSelection ::
    "store \<Rightarrow> State \<Rightarrow> addr option \<Rightarrow> string list \<Rightarrow> string list \<Rightarrow> Outcome" where
  "updateSelection h s rt select deselect =
     (if rt = None \<and> length select = 0 \<and> length deselect = 0
      then \<lparr>state = s, events = [], thrown = None\<rparr>
      else
        (let prevRoot = root s;
             prevSelectedElementIDs = new_Set (Set_values (selectedElementIDs s));
             (ex, sel, desel) = validated h s rt select deselect;
             s' = s\<lparr>root := rt, selectedElementIDs := sel\<rparr>
         in case ex of
              Some e \<Rightarrow> \<lparr>state = s', events = [], thrown = Some e\<rparr>
            | None \<Rightarrow>
                (let changed = selectionChanged prevSelectedElementIDs sel;
                     feedback =
                       (if changed
                        then dispatchFeedback
                               [SelectFeedbackAction (Set_values sel) (Set_values desel)]
                        else []);
                     rootChanged = (prevRoot \<noteq> rt);
                     notes = (if rootChanged \<or> changed then notifyListeners s' rt sel else [])
                 in \<lparr>state = s', events = feedback @ notes, thrown = None\<rparr>)))"

definition modelRootChanged :: "store \<Rightarrow> State \<Rightarrow> addr option \<Rightarrow> Outcome" where
  "modelRootChanged h s rt = updateSelection h s rt [] []"

text \<open>The getters and the query methods; none of them writes to the object.\<close>

definition getModelRoot :: "State \<Rightarrow> addr option" where
  "getModelRoot s = root s"

definition getSelectedElements :: "store \<Rightarrow> State \<Rightarrow> exn + SModelElement list" where
  "getSelectedElements h s =
     (case root s of
        None \<Rightarrow> Inl TypeError
      | Some a \<Rightarrow> Inr (filter isSelected (all_elements (index (h a)))))"

definition getSelectedElementIDs :: "State \<Rightarrow> string JSSet" where
  "getSelectedElementIDs s = selectedElementIDs s"

definition hasSelectedElements :: "State \<Rightarrow> bool" where
  "hasSelectedElements s = (Set_size (selectedElementIDs s) > 0)"

definition isSingleSelection :: "State \<Rightarrow> bool" where
  "isSingleSelection s = (Set_size (selectedElementIDs s) = 1)"

definition isMultiSelection :: "State \<Rightarrow> bool" where
  "isMultiSelection s = (Set_size (selectedElementIDs s) > 1)"

subsection \<open>Calls, reachable states and the invariant\<close>

text \<open>The public methods of the class, and what one call does to the object.\<close>

datatype Call =
    Register SelectionListener
  | Deregister SelectionListener
  | ModelRootChanged "addr option"
  | UpdateSelection "addr option" "string list" "string list"
  | GetModelRoot
  | GetSelectedElements
  | GetSelectedElementIDs
  | HasSelectedElements
  | IsSingleSelection
  | IsMultiSelection

fun perform :: "store \<Rightarrow> State \<Rightarrow> Call \<Rightarrow> Outcome" where
  "perform h s (Register l) = \<lparr>state = register s l, events = [], thrown = None\<rparr>"
| "perform h s (Deregister l) = \<lparr>state = deregister s l, events = [], thrown = None\<rparr>"
| "perform h s (ModelRootChanged rt) = modelRootChanged h s rt"
| "perform h s (UpdateSelection rt select deselect) = updateSelection h s rt select deselect"
| "perform h s GetSelectedElements =
     \<lparr>state = s, events = [],
      thrown = (case getSelectedElements h s of Inl e \<Rightarrow> Some e | Inr els \<Rightarrow> None)\<rparr>"
| "perform h s GetModelRoot = \<lparr>state = s, events = [], thrown = None\<rparr>"
| "perform h s GetSelectedElementIDs = \<lparr>state = s, events = [], thrown = None\<rparr>"
| "perform h s HasSelectedElements = \<lparr>state = s, events = [], thrown = None\<rparr>"
| "perform h s IsSingleSelection = \<lparr>state = s, events = [], thrown = None\<rparr>"
| "perform h s IsMultiSelection = \<lparr>state = s, events = [], thrown = None\<rparr>"

text \<open>
  The states a service can be in over a store: the constructed one, and the one any call
  leaves behind, a call that threw included (the caller may catch the exception and go on).
\<close>

inductive reachable :: "store \<Rightarrow> State \<Rightarrow> bool" for h :: store where
  constructed: "reachable h (initial ls)"
| called: "reachable h s \<Longrightarrow> reachable h (state (perform h s c))"

text \<open>Every selected identifier resolves in the stored root.\<close>

definition selection_valid :: "store \<Rightarrow> State \<Rightarrow> bool" where
  "selection_valid h s = list_all (resolvable h (root s)) (Set_values (selectedElementIDs s))"

text \<open>The number of \<^verbatim>\<open>selectionChanged\<close> calls a listener received.\<close>

fun notified :: "SelectionListener \<Rightarrow> Event \<Rightarrow> bool" where
  "notified l (SelectionChanged l' rt ids) = (l' = l)"
| "notified l (RegisterFeedback actions) = False"

definition notifications :: "SelectionListener \<Rightarrow> Event list \<Rightarrow> nat" where
  "notifications l evs = length (filter (notified l) evs)"

text \<open>
  The deselected identifiers that leave the service: those in the second list of a
  \<^verbatim>\<open>SelectFeedbackAction\<close> handed to the feedback dispatcher. A listener is given the
  root and the selection only.
\<close>

fun action_deselected :: "Action \<Rightarrow> string list" where
  "action_deselected (SelectFeedbackAction sel desel) = desel"

fun event_deselected :: "Event \<Rightarrow> string list" where
  "event_deselected (RegisterFeedback actions) = concat (map action_deselected actions)"
| "event_deselected (SelectionChanged l rt ids) = []"

definition deselectedReport :: "Event list \<Rightarrow> string list" where
  "deselectedReport evs = concat (map event_deselected evs)"

subsection \<open>A store for the examples\<close>

text \<open>
  Root \<open>0\<close> has the elements \<open>n1\<close> and \<open>n2\<close>; every other root has \<open>n2\<close> only.
\<close>

definition rootA :: SModelRoot where
  "rootA = \<lparr>index = [\<lparr>elem_id = ''n1'', selected = False\<rparr>,
                    \<lparr>elem_id = ''n2'', selected = False\<rparr>]\<rparr>"

definition rootB :: SModelRoot where
  "rootB = \<lparr>index = [\<lparr>elem_id = ''n2'', selected = False\<rparr>]\<rparr>"

definition store0 :: store where
  "store0 a = (if a = 0 then rootA else rootB)"

text \<open>A service on root \<open>0\<close> with both elements selected and one listener.\<close>

definition stateA :: State where
  "stateA = \<lparr>root = Some 0, selectedElementIDs = new_Set [''n1'', ''n2''],
             selectionListeners = [7]\<rparr>"

text \<open>A service on root \<open>0\<close> with only \<open>n2\<close> selected.\<close>

definition stateN2 :: State where
  "stateN2 = \<lparr>root = Some 0, selectedElementIDs = new_Set [''n2''],
              selectionListeners = [7]\<rparr>"

section \<open>Properties\<close>

subsection \<open>Sets and arrays\<close>

lemma Set_values_distinct [simp]: "distinct (Set_values S)"
  using Set_values [of S] by simp

lemma Set_eq_iff: "S = T \<longleftrightarrow> Set_values S = Set_values T"
  by (simp add: Set_values_inject)

lemmas Set_simps = Set_empty.rep_eq Set_has.rep_eq Set_add.rep_eq Set_delete.rep_eq Set_size.rep_eq

lemma indexOf_nonneg: "v \<in> set xs \<Longrightarrow> 0 \<le> indexOf xs v"
  by (induction xs) (auto simp: Let_def)

lemma indexOf_absent: "indexOf xs v = -1 \<longleftrightarrow> v \<notin> set xs"
proof (induction xs)
  case Nil
  show ?case by simp
next
  case (Cons x xs)
  show ?case
  proof (cases "x = v")
    case True
    then show ?thesis by simp
  next
    case False
    show ?thesis
    proof (cases "v \<in> set xs")
      case True
      with indexOf_nonneg [OF True] Cons False show ?thesis by (simp add: Let_def)
    next
      case False
      with Cons \<open>x \<noteq> v\<close> show ?thesis by (simp add: Let_def)
    qed
  qed
qed

lemma set_fold_add: "set (Set_values (fold Set_add xs S)) = set (Set_values S) \<union> set xs"
  by (induction xs arbitrary: S) (auto simp: Set_simps)

lemma set_fold_delete: "set (Set_values (fold Set_delete xs S)) = set (Set_values S) - set xs"
  by (induction xs arbitrary: S) (auto simp: Set_simps)

lemma values_fold_delete:
  "Set_values (fold Set_delete xs S) = filter (\<lambda>x. x \<notin> set xs) (Set_values S)"
  by (induction xs arbitrary: S) (auto simp: Set_simps removeAll_filter_not_eq intro: filter_cong)

lemma new_Set_values: "new_Set (Set_values S) = S"
proof -
  have "distinct (ys @ xs) \<Longrightarrow> Set_values T = ys \<Longrightarrow> Set_values (fold Set_add xs T) = ys @ xs" for xs ys :: "'a list" and T
  proof (induction xs arbitrary: ys T)
    case Nil
    then show ?case by simp
  next
    case (Cons x xs)
    from Cons.prems have "Set_values (Set_add x T) = ys @ [x]" by (simp add: Set_simps)
    moreover from Cons.prems have "distinct ((ys @ [x]) @ xs)" by simp
    ultimately have "Set_values (fold Set_add xs (Set_add x T)) = (ys @ [x]) @ xs"
      by (rule Cons.IH [rotated])
    then show ?case by simp
  qed
  from this [of "[]" "Set_values S" Set_empty] show ?thesis
    by (simp add: new_Set_def Set_eq_iff Set_simps)
qed

lemma set_new_Set: "set (Set_values (new_Set xs)) = set xs"
  by (simp add: new_Set_def set_fold_add Set_simps)

lemma selectionChanged_iff:
  "selectionChanged P C \<longleftrightarrow> set (Set_values P) \<noteq> set (Set_values C)"
proof
  assume "selectionChanged P C"
  then show "set (Set_values P) \<noteq> set (Set_values C)"
    unfolding selectionChanged_def Set_simps list_all_iff
    by (metis Set_values_distinct distinct_card)
next
  assume ne: "set (Set_values P) \<noteq> set (Set_values C)"
  show "selectionChanged P C"
  proof (rule ccontr)
    assume "\<not> selectionChanged P C"
    then have len: "length (Set_values P) = length (Set_values C)"
      and sub: "set (Set_values P) \<subseteq> set (Set_values C)"
      by (auto simp: selectionChanged_def Set_simps list_all_iff)
    from len have "card (set (Set_values P)) = card (set (Set_values C))"
      by (simp add: distinct_card)
    with sub have "set (Set_values P) = set (Set_values C)"
      by (simp add: card_subset_eq)
    with ne show False by simp
  qed
qed

subsection \<open>What one update computes\<close>

lemma validate_defined:
  "validate h p (Some a) ids sel desel =
     (None,
      fold Set_delete (filter (\<lambda>i. getById (index (h a)) i = None) ids) sel,
      fold Set_add (filter (\<lambda>i. getById (index (h a)) i = None \<and> resolvable h p i) ids) desel)"
  by (induction ids arbitrary: sel desel) (auto split: option.splits)

lemma validate_undefined:
  "validate h p None ids sel desel = (if ids = [] then None else Some TypeError, sel, desel)"
  by (cases ids) auto

lemma set_toSelect: "set (toSelect select deselect) = set select - set deselect"
  by (auto simp: toSelect_def indexOf_absent)

lemma set_toDeselect:
  "set (toDeselect s select deselect) =
     (set deselect - set select) \<inter> set (Set_values (selectedElementIDs s))"
  by (auto simp: toDeselect_def indexOf_absent Set_simps)

lemma set_applied:
  "set (Set_values (applied s select deselect)) =
     (set (Set_values (selectedElementIDs s)) - (set deselect - set select))
       \<union> (set select - set deselect)"
  by (auto simp: applied_def set_fold_add set_fold_delete set_toSelect set_toDeselect)

lemma validated_defined:
  "validated h s (Some a) select deselect =
     (None,
      fold Set_delete
        (filter (\<lambda>i. getById (index (h a)) i = None) (Set_values (applied s select deselect)))
        (applied s select deselect),
      fold Set_add
        (filter (\<lambda>i. getById (index (h a)) i = None \<and> resolvable h (root s) i)
           (Set_values (applied s select deselect)))
        (new_Set (toDeselect s select deselect)))"
  by (simp add: validated_def validate_defined)

lemma validated_undefined:
  "validated h s None select deselect =
     (if Set_values (applied s select deselect) = [] then None else Some TypeError,
      applied s select deselect, new_Set (toDeselect s select deselect))"
  by (simp add: validated_def validate_undefined)

lemma values_validated_defined:
  "Set_values (fst (snd (validated h s (Some a) select deselect))) =
     filter (\<lambda>i. getById (index (h a)) i \<noteq> None) (Set_values (applied s select deselect))"
  unfolding validated_defined fst_conv snd_conv values_fold_delete
  by (rule filter_cong) auto

lemma set_deselected_defined:
  "set (Set_values (deselectedElementIDs h s (Some a) select deselect)) =
     set (toDeselect s select deselect)
     \<union> {i \<in> set (Set_values (applied s select deselect)).
          getById (index (h a)) i = None \<and> resolvable h (root s) i}"
  by (auto simp: deselectedElementIDs_def validated_defined set_fold_add set_new_Set)

lemma state_updateSelection:
  "rt \<noteq> None \<or> select \<noteq> [] \<or> deselect \<noteq> [] \<Longrightarrow>
   state (updateSelection h s rt select deselect) =
     s\<lparr>root := rt, selectedElementIDs := fst (snd (validated h s rt select deselect))\<rparr>"
  by (auto simp: updateSelection_def Let_def split: prod.splits option.splits)

lemma thrown_updateSelection:
  "thrown (updateSelection h s rt select deselect) =
     (if rt = None \<and> select = [] \<and> deselect = [] then None
      else fst (validated h s rt select deselect))"
  by (auto simp: updateSelection_def Let_def split: prod.splits option.splits)

lemma updateSelection_throws_iff:
  "thrown (updateSelection h s rt select deselect) = Some TypeError
   \<longleftrightarrow> rt = None \<and> (select \<noteq> [] \<or> deselect \<noteq> [])
       \<and> Set_values (applied s select deselect) \<noteq> []"
  by (cases rt) (auto simp: thrown_updateSelection validated_undefined validated_defined)

lemma events_updateSelection:
  "rt \<noteq> None \<or> select \<noteq> [] \<or> deselect \<noteq> [] \<Longrightarrow>
   events (updateSelection h s rt select deselect) =
     (if fst (validated h s rt select deselect) \<noteq> None then []
      else
        (if set (Set_values (fst (snd (validated h s rt select deselect))))
              \<noteq> set (Set_values (selectedElementIDs s))
         then [RegisterFeedback [SelectFeedbackAction
                 (Set_values (fst (snd (validated h s rt select deselect))))
                 (Set_values (snd (snd (validated h s rt select deselect))))]]
         else [])
        @ (if root s \<noteq> rt \<or> set (Set_values (fst (snd (validated h s rt select deselect))))
                  \<noteq> set (Set_values (selectedElementIDs s))
           then map (\<lambda>l. SelectionChanged l rt
                      (Set_values (fst (snd (validated h s rt select deselect)))))
                  (selectionListeners s)
           else []))"
  by (auto simp: updateSelection_def Let_def new_Set_values selectionChanged_iff
        dispatchFeedback_def notifyListeners_def split: prod.splits option.splits)

lemmas eval_defs = updateSelection_def validated_def applied_def toSelect_def toDeselect_def
  initial_def new_Set_def store0_def rootA_def rootB_def getById_def resolvable_def
  selectionChanged_def dispatchFeedback_def notifyListeners_def Let_def
  deselectedElementIDs_def register_def deregister_def distinctAdd_def remove_def
  modelRootChanged_def selection_valid_def notifications_def

subsection \<open>The no-op and the root change\<close>

text \<open>
  Claim C6. A call \<^verbatim>\<open>updateSelection(undefined, [], [])\<close> returns at line 53: the
  stored root, the selection set and the listeners are as before, and nothing is sent to
  the feedback dispatcher or to a listener.
\<close>

theorem updateSelection_noop:
  "updateSelection h s None [] [] = \<lparr>state = s, events = [], thrown = None\<rparr>"
  by (simp add: updateSelection_def)

text \<open>
  Claim C7. \<^verbatim>\<open>modelRootChanged(root)\<close> is \<^verbatim>\<open>updateSelection(root, [], [])\<close>:
  the same state afterwards, the same calls to the collaborators in the same order, the
  same exception if one escapes.
\<close>

theorem modelRootChanged_is_updateSelection:
  "modelRootChanged h s rt = updateSelection h s rt [] []"
  by (simp add: modelRootChanged_def)

subsection \<open>An undefined root\<close>

text \<open>
  Claim C2 says that no call of \<^verbatim>\<open>updateSelection\<close> raises an exception, an undefined
  root with a non-empty select list included. On a new service,
  \<^verbatim>\<open>updateSelection(undefined, ["n1"], [])\<close> passes the test of line 52, stores the
  undefined root, adds \<open>n1\<close> to the set, and throws a \<^verbatim>\<open>TypeError\<close> at
  \<^verbatim>\<open>root.index\<close> in line 76; the object keeps the undefined root and the selection
  \<open>{n1}\<close>. By \<open>updateSelection_throws_iff\<close> this happens whenever the root is undefined
  and the set is not empty after lines 64 to 71.
\<close>

theorem undefined_root_throws:
  "updateSelection store0 (initial []) None [''n1''] [] =
     \<lparr>state = \<lparr>root = None, selectedElementIDs = new_Set [''n1''], selectionListeners = []\<rparr>,
      events = [], thrown = Some TypeError\<rparr>"
  by (simp add: eval_defs Set_simps)

subsection \<open>Identifiers in both lists\<close>

text \<open>
  Claim C1 says that an identifier in both lists is selected after the update, whether it
  was selected before or not. It is not: lines 64 and 65 drop such an identifier from both
  \<^verbatim>\<open>toSelect\<close> and \<^verbatim>\<open>toDeselect\<close> (the comment above them calls it a no-op). On a
  new service, \<^verbatim>\<open>updateSelection(rootA, ["n1"], ["n1"])\<close> returns and \<open>n1\<close>, an
  element of \<open>rootA\<close>, is not selected.
\<close>

theorem both_lists_not_selected_counterexample:
  "''n1'' \<in> set [''n1''] \<inter> set [''n1'']
   \<and> thrown (updateSelection store0 (initial []) (Some 0) [''n1''] [''n1'']) = None
   \<and> \<not> Set_has (selectedElementIDs
              (state (updateSelection store0 (initial []) (Some 0) [''n1''] [''n1'']))) ''n1''"
  by (simp add: eval_defs Set_simps)

text \<open>
  Claim C1, amended. In a call that returns, an identifier in both lists is neither added
  nor deleted by lines 64 to 71: it is selected afterwards if and only if it was selected
  before and it resolves in the new root.
\<close>

theorem both_lists_left_as_found:
  assumes "thrown (updateSelection h s rt select deselect) = None"
    and "i \<in> set select" and "i \<in> set deselect"
  shows "Set_has (selectedElementIDs (state (updateSelection h s rt select deselect))) i
         \<longleftrightarrow> Set_has (selectedElementIDs s) i \<and> resolvable h rt i"
proof -
  from assms(2,3) have same: "i \<in> set (Set_values (applied s select deselect))
      \<longleftrightarrow> i \<in> set (Set_values (selectedElementIDs s))"
    by (auto simp: set_applied)
  from assms(2) have lists: "rt \<noteq> None \<or> select \<noteq> [] \<or> deselect \<noteq> []"
    by auto
  show ?thesis
  proof (cases rt)
    case None
    with assms(1) lists have "Set_values (applied s select deselect) = []"
      by (auto simp: thrown_updateSelection validated_undefined split: if_splits)
    with same None lists show ?thesis
      by (simp add: state_updateSelection validated_undefined Set_simps resolvable_def)
  next
    case (Some a)
    with same show ?thesis
      by (simp add: state_updateSelection values_validated_defined Set_simps resolvable_def)
  qed
qed

theorem both_lists_left_as_found_witness:
  "thrown (updateSelection store0 stateA (Some 0) [''n2''] [''n2'']) = None
   \<and> Set_has (selectedElementIDs
        (state (updateSelection store0 stateA (Some 0) [''n2''] [''n2'']))) ''n2''
   \<and> thrown (updateSelection store0 (initial []) (Some 0) [''n2''] [''n2'']) = None
   \<and> \<not> Set_has (selectedElementIDs
        (state (updateSelection store0 (initial []) (Some 0) [''n2''] [''n2'']))) ''n2''"
  using both_lists_left_as_found [of store0 stateA "Some 0" "[''n2'']" "[''n2'']" "''n2''"]
        both_lists_left_as_found [of store0 "initial []" "Some 0" "[''n2'']" "[''n2'']" "''n2''"]
  by (simp add: eval_defs stateA_def Set_simps)

subsection \<open>Pruning\<close>

text \<open>
  Claim C3 says that an identifier pruned by the validation loop is in the update's
  outgoing deselected-report if and only if a previous root exists and resolves it. The
  "if" fails: the feedback, which alone carries the deselected identifiers, is sent only
  when the selection set changed (line 87; the comment of line 85 says so). From root
  \<open>0\<close> with \<open>n2\<close> selected, \<^verbatim>\<open>updateSelection(rootB, ["n1"], [])\<close> adds \<open>n1\<close>, prunes it
  (the new root has no \<open>n1\<close>) and puts it into \<^verbatim>\<open>deselectedElementIDs\<close> (the previous
  root resolves it); the set is \<open>{n2}\<close> as before, so no feedback goes out, and the only
  call made is the notification of the listener, with the selection alone.
\<close>

theorem pruned_but_not_reported_counterexample:
  "Set_has (applied stateN2 [''n1''] []) ''n1''
   \<and> getById (index (store0 1)) ''n1'' = None
   \<and> resolvable store0 (root stateN2) ''n1''
   \<and> \<not> Set_has (selectedElementIDs
          (state (updateSelection store0 stateN2 (Some 1) [''n1''] []))) ''n1''
   \<and> Set_has (deselectedElementIDs store0 stateN2 (Some 1) [''n1''] []) ''n1''
   \<and> events (updateSelection store0 stateN2 (Some 1) [''n1''] []) =
        [SelectionChanged 7 (Some 1) [''n2'']]
   \<and> ''n1'' \<notin> set (deselectedReport (events (updateSelection store0 stateN2 (Some 1) [''n1''] [])))"
  by (simp add: eval_defs stateN2_def Set_simps deselectedReport_def)

lemma deselectedReport_notes:
  "deselectedReport (map (\<lambda>listener. SelectionChanged listener rt ids) ls) = []"
  by (induction ls) (simp_all add: deselectedReport_def)

lemma deselectedReport_append:
  "deselectedReport (evs @ evs') = deselectedReport evs @ deselectedReport evs'"
  by (simp add: deselectedReport_def)

lemma deselectedReport_defined:
  "set (deselectedReport (events (updateSelection h s (Some a) select deselect))) =
     (if set (Set_values (selectedElementIDs (state (updateSelection h s (Some a) select deselect))))
           \<noteq> set (Set_values (selectedElementIDs s))
      then set (Set_values (deselectedElementIDs h s (Some a) select deselect))
      else {})"
proof -
  have "fst (validated h s (Some a) select deselect) = None"
    by (simp add: validated_defined)
  then show ?thesis
    by (simp add: events_updateSelection state_updateSelection deselectedReport_append
          deselectedReport_notes deselectedElementIDs_def)
       (simp add: deselectedReport_def)
qed

text \<open>
  Claim C3, amended. In an update with a root, an identifier that is in the selection set
  after lines 64 to 71 and does not resolve in the new root's index is not in the set
  afterwards; it is in \<^verbatim>\<open>deselectedElementIDs\<close> if and only if there is a previous root
  and the identifier resolves in it; and it is in the outgoing deselected-report if and
  only if, in addition, the selection set holds other identifiers after the update than
  before, which is when the feedback is sent.
\<close>

theorem pruning_and_outgoing_report:
  assumes "Set_has (applied s select deselect) i"
    and "getById (index (h a)) i = None"
  shows "\<not> Set_has (selectedElementIDs (state (updateSelection h s (Some a) select deselect))) i
    \<and> (Set_has (deselectedElementIDs h s (Some a) select deselect) i
         \<longleftrightarrow> resolvable h (root s) i)
    \<and> (i \<in> set (deselectedReport (events (updateSelection h s (Some a) select deselect)))
         \<longleftrightarrow> resolvable h (root s) i
             \<and> set (Set_values (selectedElementIDs
                    (state (updateSelection h s (Some a) select deselect))))
                 \<noteq> set (Set_values (selectedElementIDs s)))"
proof -
  from assms(1) have mem: "i \<in> set (Set_values (applied s select deselect))"
    by (simp add: Set_simps)
  then have notd: "i \<notin> set (toDeselect s select deselect)"
    by (auto simp: set_applied set_toDeselect)
  have one: "\<not> Set_has (selectedElementIDs (state (updateSelection h s (Some a) select deselect))) i"
    using assms(2) by (simp add: state_updateSelection values_validated_defined Set_simps)
  have two: "i \<in> set (Set_values (deselectedElementIDs h s (Some a) select deselect))
         \<longleftrightarrow> resolvable h (root s) i"
    using mem notd assms(2) by (simp add: set_deselected_defined)
  have three: "i \<in> set (deselectedReport (events (updateSelection h s (Some a) select deselect)))
         \<longleftrightarrow> resolvable h (root s) i
             \<and> set (Set_values (selectedElementIDs
                    (state (updateSelection h s (Some a) select deselect))))
                 \<noteq> set (Set_values (selectedElementIDs s))"
    unfolding deselectedReport_defined using two by auto
  from one two three show ?thesis by (simp add: Set_simps)
qed

theorem pruning_and_outgoing_report_witness:
  "Set_has (applied stateA [] []) ''n1''
   \<and> getById (index (store0 1)) ''n1'' = None
   \<and> \<not> Set_has (selectedElementIDs (state (updateSelection store0 stateA (Some 1) [] []))) ''n1''
   \<and> Set_has (deselectedElementIDs store0 stateA (Some 1) [] []) ''n1''
   \<and> ''n1'' \<in> set (deselectedReport (events (updateSelection store0 stateA (Some 1) [] [])))
   \<and> events (updateSelection store0 stateA (Some 1) [] []) =
        [RegisterFeedback [SelectFeedbackAction [''n2''] [''n1'']],
         SelectionChanged 7 (Some 1) [''n2'']]
   \<and> Set_has (applied stateN2 [''n1''] []) ''n1''
   \<and> ''n1'' \<notin> set (deselectedReport (events (updateSelection store0 stateN2 (Some 1) [''n1''] [])))"
  using pruning_and_outgoing_report [of stateA "[]" "[]" "''n1''" store0 1]
        pruning_and_outgoing_report [of stateN2 "[''n1'']" "[]" "''n1''" store0 1]
  by (simp add: eval_defs stateA_def stateN2_def Set_simps deselectedReport_def)

subsection \<open>The invariant\<close>

lemma valid_after_update:
  assumes "thrown (updateSelection h s rt select deselect) = None"
    and "rt \<noteq> None \<or> select \<noteq> [] \<or> deselect \<noteq> []"
  shows "selection_valid h (state (updateSelection h s rt select deselect))"
proof (cases rt)
  case None
  with assms have "Set_values (applied s select deselect) = []"
    by (auto simp: thrown_updateSelection validated_undefined split: if_splits)
  with None assms(2) show ?thesis
    by (simp add: selection_valid_def state_updateSelection validated_undefined)
next
  case (Some a)
  then show ?thesis
    by (simp add: selection_valid_def state_updateSelection values_validated_defined
          list_all_iff resolvable_def)
qed

lemma valid_update:
  assumes "selection_valid h s" and "thrown (updateSelection h s rt select deselect) = None"
  shows "selection_valid h (state (updateSelection h s rt select deselect))"
proof (cases "rt \<noteq> None \<or> select \<noteq> [] \<or> deselect \<noteq> []")
  case True
  with assms(2) show ?thesis by (rule valid_after_update)
next
  case False
  with assms(1) show ?thesis by (simp add: updateSelection_def)
qed

text \<open>
  Claim C4. Every selected identifier resolves in the stored root: this holds of a new
  service, and every call of a public method that returns without an exception
  (\<^verbatim>\<open>register\<close>, \<^verbatim>\<open>deregister\<close>, \<^verbatim>\<open>modelRootChanged\<close>, \<^verbatim>\<open>updateSelection\<close>, the getters
  and the queries) keeps it.
\<close>

theorem selection_valid_preserved:
  "selection_valid h (initial ls)
   \<and> (selection_valid h s \<longrightarrow> thrown (perform h s c) = None
        \<longrightarrow> selection_valid h (state (perform h s c)))"
proof
  show "selection_valid h (initial ls)"
    by (simp add: selection_valid_def initial_def Set_simps)
next
  show "selection_valid h s \<longrightarrow> thrown (perform h s c) = None
        \<longrightarrow> selection_valid h (state (perform h s c))"
  proof (cases c)
    case (ModelRootChanged rt)
    then show ?thesis by (simp add: modelRootChanged_def valid_update)
  next
    case (UpdateSelection rt select deselect)
    then show ?thesis by (simp add: valid_update)
  qed (simp_all add: selection_valid_def register_def deregister_def)
qed

theorem selection_valid_preserved_witness:
  "selection_valid store0 (initial [7])
   \<and> thrown (perform store0 (initial [7]) (UpdateSelection (Some 0) [''n1'', ''ghost''] [])) = None
   \<and> selection_valid store0
        (state (perform store0 (initial [7]) (UpdateSelection (Some 0) [''n1'', ''ghost''] [])))
   \<and> Set_values (selectedElementIDs
        (state (perform store0 (initial [7]) (UpdateSelection (Some 0) [''n1'', ''ghost''] []))))
       = [''n1'']"
  using selection_valid_preserved [of store0 "[7]" "initial [7]" "UpdateSelection (Some 0) [''n1'', ''ghost''] []"]
  by (simp add: eval_defs Set_simps)

subsection \<open>Feedback and notifications\<close>

text \<open>
  Claim C5. When the root passed to \<^verbatim>\<open>updateSelection\<close> is the stored root and the
  selection set holds the same identifiers after the call as before, the call sends no
  feedback and notifies no listener.
\<close>

theorem unchanged_is_silent:
  assumes "rt = root s"
    and "set (Set_values (selectedElementIDs (state (updateSelection h s rt select deselect))))
         = set (Set_values (selectedElementIDs s))"
  shows "events (updateSelection h s rt select deselect) = []"
proof (cases "rt \<noteq> None \<or> select \<noteq> [] \<or> deselect \<noteq> []")
  case True
  with assms show ?thesis
    by (simp add: events_updateSelection state_updateSelection)
next
  case False
  then show ?thesis by (simp add: updateSelection_def)
qed

theorem unchanged_is_silent_witness:
  "Some 0 = root stateA
   \<and> set (Set_values (selectedElementIDs (state (updateSelection store0 stateA (Some 0) [''n2''] [''n2'']))))
       = set (Set_values (selectedElementIDs stateA))
   \<and> events (updateSelection store0 stateA (Some 0) [''n2''] [''n2'']) = []"
  using unchanged_is_silent [of "Some 0" stateA store0 "[''n2'']" "[''n2'']"]
  by (simp add: eval_defs stateA_def Set_simps)

lemma events_of_completed:
  assumes "thrown (updateSelection h s rt select deselect) = None"
  shows "events (updateSelection h s rt select deselect) =
     (if set (Set_values (selectedElementIDs (state (updateSelection h s rt select deselect))))
           \<noteq> set (Set_values (selectedElementIDs s))
      then [RegisterFeedback [SelectFeedbackAction
              (Set_values (selectedElementIDs (state (updateSelection h s rt select deselect))))
              (Set_values (deselectedElementIDs h s rt select deselect))]]
      else [])
     @ (if root (state (updateSelection h s rt select deselect)) \<noteq> root s
           \<or> set (Set_values (selectedElementIDs (state (updateSelection h s rt select deselect))))
               \<noteq> set (Set_values (selectedElementIDs s))
        then map (\<lambda>listener. SelectionChanged listener
                    (root (state (updateSelection h s rt select deselect)))
                    (Set_values (selectedElementIDs (state (updateSelection h s rt select deselect)))))
               (selectionListeners s)
        else [])"
proof (cases "rt \<noteq> None \<or> select \<noteq> [] \<or> deselect \<noteq> []")
  case True
  with assms have "fst (validated h s rt select deselect) = None"
    by (auto simp: thrown_updateSelection split: if_splits)
  with True show ?thesis
    by (simp add: events_updateSelection state_updateSelection deselectedElementIDs_def eq_commute [of "root s"])
next
  case False
  then show ?thesis by (simp add: updateSelection_def)
qed

text \<open>
  Claim C8. The calls that an \<^verbatim>\<open>updateSelection\<close> which returns makes to its
  collaborators are, in this order: one \<^verbatim>\<open>registerFeedback\<close> if the selection set changed;
  then, if the stored root or the selection set changed, one \<^verbatim>\<open>selectionChanged\<close> for
  each registered listener, in the order of the listener list, with the new root and the
  new selection. So feedback comes before every notification, notifications follow the
  registration order, and they are made exactly when the root or the selection changed.
\<close>

theorem feedback_then_listeners:
  assumes "thrown (updateSelection h s rt select deselect) = None"
  shows "events (updateSelection h s rt select deselect) =
     (if set (Set_values (selectedElementIDs (state (updateSelection h s rt select deselect))))
           \<noteq> set (Set_values (selectedElementIDs s))
      then [RegisterFeedback [SelectFeedbackAction
              (Set_values (selectedElementIDs (state (updateSelection h s rt select deselect))))
              (Set_values (deselectedElementIDs h s rt select deselect))]]
      else [])
     @ (if root (state (updateSelection h s rt select deselect)) \<noteq> root s
           \<or> set (Set_values (selectedElementIDs (state (updateSelection h s rt select deselect))))
               \<noteq> set (Set_values (selectedElementIDs s))
        then map (\<lambda>listener. SelectionChanged listener
                    (root (state (updateSelection h s rt select deselect)))
                    (Set_values (selectedElementIDs (state (updateSelection h s rt select deselect)))))
               (selectionListeners s)
        else [])"
  using assms by (rule events_of_completed)

theorem feedback_then_listeners_witness:
  "thrown (updateSelection store0 (register stateA 9) (Some 1) [] []) = None
   \<and> events (updateSelection store0 (register stateA 9) (Some 1) [] []) =
        [RegisterFeedback [SelectFeedbackAction [''n2''] [''n1'']],
         SelectionChanged 7 (Some 1) [''n2''],
         SelectionChanged 9 (Some 1) [''n2'']]"
  using feedback_then_listeners [of store0 "register stateA 9" "Some 1" "[]" "[]"]
  by (simp add: eval_defs stateA_def Set_simps)

subsection \<open>Registration\<close>

lemma notifications_map:
  "notifications l (map (\<lambda>listener. SelectionChanged listener rt ids) ls) = count_list ls l"
  by (induction ls) (simp_all add: notifications_def)

lemma notifications_feedback:
  "notifications l (RegisterFeedback actions # evs) = notifications l evs"
  by (simp add: notifications_def)

lemma count_distinctAdd:
  "count_list ls l \<le> 1 \<Longrightarrow> count_list (distinctAdd (distinctAdd ls l) l) l = 1"
proof (cases "l \<in> set ls")
  case True
  then have "count_list ls l \<noteq> 0" by (simp add: count_list_0_iff)
  moreover assume "count_list ls l \<le> 1"
  ultimately have "count_list ls l = 1" by simp
  with True show ?thesis by (simp add: distinctAdd_def)
next
  case False
  then have "count_list ls l = 0" by (simp add: count_list_0_iff)
  with False show ?thesis by (simp add: distinctAdd_def)
qed

text \<open>
  Claim C9. Registering a listener that is already registered leaves the state as it is,
  and so does registering it a second time. A listener that was registered at most once
  before, and is then registered twice, gets exactly one \<^verbatim>\<open>selectionChanged\<close> from an
  update that returns and changes the root or the selection.
\<close>

theorem register_idempotent:
  "(l \<in> set (selectionListeners s) \<longrightarrow> register s l = s)
   \<and> register (register s l) l = register s l
   \<and> (count_list (selectionListeners s) l \<le> 1
        \<longrightarrow> thrown (updateSelection h (register (register s l) l) rt select deselect) = None
        \<longrightarrow> (root (state (updateSelection h (register (register s l) l) rt select deselect)) \<noteq> root s
             \<or> set (Set_values (selectedElementIDs
                    (state (updateSelection h (register (register s l) l) rt select deselect))))
                 \<noteq> set (Set_values (selectedElementIDs s)))
        \<longrightarrow> notifications l
              (events (updateSelection h (register (register s l) l) rt select deselect)) = 1)"
proof (intro conjI impI)
  show "register s l = s" if "l \<in> set (selectionListeners s)"
    using that by (simp add: register_def distinctAdd_def)
  show "register (register s l) l = register s l"
    by (simp add: register_def distinctAdd_def)
next
  let ?s2 = "register (register s l) l"
  let ?r = "updateSelection h ?s2 rt select deselect"
  assume cnt: "count_list (selectionListeners s) l \<le> 1"
    and ok: "thrown ?r = None"
    and ch: "root (state ?r) \<noteq> root s
             \<or> set (Set_values (selectedElementIDs (state ?r)))
                 \<noteq> set (Set_values (selectedElementIDs s))"
  have same: "root ?s2 = root s" "selectedElementIDs ?s2 = selectedElementIDs s"
    "selectionListeners ?s2 = distinctAdd (distinctAdd (selectionListeners s) l) l"
    by (simp_all add: register_def)
  from ch have ch2: "root (state ?r) \<noteq> root ?s2
             \<or> set (Set_values (selectedElementIDs (state ?r)))
                 \<noteq> set (Set_values (selectedElementIDs ?s2))"
    by (simp only: same)
  have "notifications l (events ?r) = count_list (selectionListeners ?s2) l"
    using ch2 by (subst events_of_completed [OF ok]) (auto simp: notifications_map notifications_feedback)
  with cnt show "notifications l (events ?r) = 1"
    by (simp only: same count_distinctAdd)
qed

theorem register_idempotent_witness:
  "7 \<in> set (selectionListeners stateA) \<and> register stateA 7 = stateA
   \<and> count_list (selectionListeners stateA) 9 \<le> 1
   \<and> selectionListeners (register (register stateA 9) 9) = [7, 9]
   \<and> thrown (updateSelection store0 (register (register stateA 9) 9) (Some 1) [] []) = None
   \<and> root (state (updateSelection store0 (register (register stateA 9) 9) (Some 1) [] []))
       \<noteq> root stateA
   \<and> notifications 9
        (events (updateSelection store0 (register (register stateA 9) 9) (Some 1) [] [])) = 1"
  using register_idempotent [of 7 stateA store0 "Some 1" "[]" "[]"]
        register_idempotent [of 9 stateA store0 "Some 1" "[]" "[]"]
  by (simp add: eval_defs stateA_def Set_simps)

subsection \<open>Selections that never resolve\<close>

lemma filter_fold_add:
  "\<forall>x \<in> set xs. \<not> P x \<Longrightarrow>
   filter P (Set_values (fold Set_add xs S)) = filter P (Set_values S)"
  by (induction xs arbitrary: S) (simp_all add: Set_simps)

lemma valid_or_rootless:
  assumes "root s \<noteq> None \<longrightarrow> selection_valid h s"
  shows "root (state (perform h s c)) \<noteq> None \<longrightarrow> selection_valid h (state (perform h s c))"
proof -
  have upd: "root (state (updateSelection h s rt select deselect)) \<noteq> None
      \<longrightarrow> selection_valid h (state (updateSelection h s rt select deselect))"
    for rt select deselect
  proof (cases "rt \<noteq> None \<or> select \<noteq> [] \<or> deselect \<noteq> []")
    case True
    show ?thesis
    proof (cases rt)
      case None
      with True show ?thesis by (simp add: state_updateSelection)
    next
      case (Some a)
      then have "thrown (updateSelection h s rt select deselect) = None"
        by (simp add: thrown_updateSelection validated_defined)
      with True show ?thesis by (simp add: valid_after_update)
    qed
  next
    case False
    with assms show ?thesis by (simp add: updateSelection_def)
  qed
  show ?thesis
  proof (cases c)
    case (ModelRootChanged rt)
    with upd show ?thesis by (simp add: modelRootChanged_def)
  next
    case (UpdateSelection rt select deselect)
    with upd show ?thesis by simp
  qed (use assms in \<open>simp_all add: selection_valid_def register_def deregister_def\<close>)
qed

lemma reachable_valid: "reachable h s \<Longrightarrow> root s \<noteq> None \<longrightarrow> selection_valid h s"
proof (induction rule: reachable.induct)
  case (constructed ls)
  show ?case by (simp add: initial_def)
next
  case (called s c)
  then show ?case by (intro valid_or_rootless)
qed

lemma phantom_absorbed:
  assumes valid: "selection_valid h s" and rt: "root s = Some a"
    and ghost: "\<forall>i \<in> set select. getById (index (h a)) i = None"
  shows "updateSelection h s (Some a) select [] = \<lparr>state = s, events = [], thrown = None\<rparr>"
    and "Set_values (deselectedElementIDs h s (Some a) select []) = []"
proof -
  have tS: "toSelect select [] = select" by (simp add: toSelect_def)
  have tD: "toDeselect s select [] = []" by (simp add: toDeselect_def)
  have ap: "applied s select [] = fold Set_add select (selectedElementIDs s)"
    by (simp add: applied_def tS tD)
  from valid rt have all: "\<forall>i \<in> set (Set_values (selectedElementIDs s)). getById (index (h a)) i \<noteq> None"
    by (simp add: selection_valid_def list_all_iff resolvable_def)
  have "Set_values (fst (snd (validated h s (Some a) select []))) =
        filter (\<lambda>i. getById (index (h a)) i \<noteq> None) (Set_values (selectedElementIDs s))"
    using ghost by (simp only: values_validated_defined ap) (rule filter_fold_add, simp)
  also have "\<dots> = Set_values (selectedElementIDs s)"
    using all by (simp add: filter_id_conv)
  finally have sel: "fst (snd (validated h s (Some a) select [])) = selectedElementIDs s"
    by (simp add: Set_eq_iff)
  have st: "state (updateSelection h s (Some a) select []) = s"
    using rt by (simp add: state_updateSelection sel)
  have th: "thrown (updateSelection h s (Some a) select []) = None"
    by (simp add: thrown_updateSelection validated_defined)
  have "fst (validated h s (Some a) select []) = None"
    by (simp add: validated_defined)
  then have ev: "events (updateSelection h s (Some a) select []) = []"
    using rt by (simp add: events_updateSelection sel)
  from st th ev show "updateSelection h s (Some a) select [] = \<lparr>state = s, events = [], thrown = None\<rparr>"
    by (cases "updateSelection h s (Some a) select []") simp
  have "set (Set_values (deselectedElementIDs h s (Some a) select [])) = {}"
    using rt by (auto simp: set_deselected_defined tD resolvable_def)
  then show "Set_values (deselectedElementIDs h s (Some a) select []) = []" by simp
qed

text \<open>
  Claim C10. In a state the service can reach, a call of \<^verbatim>\<open>updateSelection\<close> with the
  stored root, a select list of identifiers that do not resolve in that root, and an empty
  deselect list returns with the state as it was, sends no feedback, notifies no listener,
  and has none of those identifiers in \<^verbatim>\<open>deselectedElementIDs\<close>.
\<close>

theorem phantom_selection_absorbed:
  assumes "reachable h s" and "root s = Some a"
    and "\<forall>i \<in> set select. getById (index (h a)) i = None"
  shows "updateSelection h s (Some a) select [] = \<lparr>state = s, events = [], thrown = None\<rparr>
     \<and> (\<forall>i \<in> set select. \<not> Set_has (deselectedElementIDs h s (Some a) select []) i)"
proof -
  from assms(1,2) have "selection_valid h s" by (simp add: reachable_valid)
  from phantom_absorbed [OF this assms(2,3)] show ?thesis by (simp add: Set_simps)
qed

lemma reachable_stateA: "reachable store0 stateA"
proof -
  have "reachable store0 (state (perform store0 (initial [7]) (UpdateSelection (Some 0) [''n1'', ''n2''] [])))"
    by (rule called) (rule constructed)
  moreover have "state (perform store0 (initial [7]) (UpdateSelection (Some 0) [''n1'', ''n2''] [])) = stateA"
    by (simp add: eval_defs stateA_def Set_simps Set_eq_iff)
  ultimately show ?thesis by simp
qed

theorem phantom_selection_absorbed_witness:
  "reachable store0 stateA \<and> root stateA = Some 0
   \<and> getById (index (store0 0)) ''ghost'' = None
   \<and> updateSelection store0 stateA (Some 0) [''ghost''] [] =
        \<lparr>state = stateA, events = [], thrown = None\<rparr>
   \<and> \<not> Set_has (deselectedElementIDs store0 stateA (Some 0) [''ghost''] []) ''ghost''"
proof -
  have a: "root stateA = Some 0" by (simp add: stateA_def)
  have b: "\<forall>i \<in> set [''ghost'']. getById (index (store0 0)) i = None"
    by (simp add: store0_def rootA_def getById_def)
  from phantom_selection_absorbed [OF reachable_stateA a b] reachable_stateA a b show ?thesis by simp
qed

end
